theory Spec2Isabelle
  imports Main "HOL-Library.Sublist"
begin

section \<open>JavaScript values, failures and settled promises\<close>

text \<open>
  The values that travel through \<^verbatim>\<open>src/UserManager.ts\<close> are JSON-like: response bodies,
  request bodies and the fields of a user. An object is the list of its own enumerable
  properties, in the order \<^verbatim>\<open>Object.entries\<close> lists them; a well-formed object names
  every key once.
\<close>

datatype jsval =
    JUndefined
  | JNull
  | JBool bool
  | JNum int
  | JStr string
  | JArr "jsval list"
  | JObj "(string \<times> jsval) list"

text \<open>
  A failure is either the \<^verbatim>\<open>TypeError\<close> the JavaScript runtime raises on a property read
  of \<^verbatim>\<open>undefined\<close> or \<^verbatim>\<open>null\<close> (or on a call of something that is not a function), or a
  rejection produced by a collaborator (the token supplier, the HTTP transport).
\<close>

datatype error = TypeError | Failure string

text \<open>\<^verbatim>\<open>PromiseSettledResult\<close>: status \<^verbatim>\<open>fulfilled\<close> with a value, or \<^verbatim>\<open>rejected\<close> with a reason.\<close>

datatype 'a settled = Fulfilled 'a | Rejected error

text \<open>
  Property read \<^verbatim>\<open>o.p\<close>. Reading a property of \<^verbatim>\<open>undefined\<close> or \<^verbatim>\<open>null\<close> throws; an
  object yields the property or \<^verbatim>\<open>undefined\<close>. The source reads only the properties
  \<^verbatim>\<open>attributes\<close>, \<^verbatim>\<open>name\<close> and \<^verbatim>\<open>location\<close> this way, none of which a boolean, number,
  string or array owns, so those yield \<^verbatim>\<open>undefined\<close>.
\<close>

fun get_property :: "jsval \<Rightarrow> string \<Rightarrow> error + jsval" where
  "get_property JUndefined p = Inl TypeError"
| "get_property JNull p = Inl TypeError"
| "get_property (JObj ps) p = Inr (case map_of ps p of None \<Rightarrow> JUndefined | Some v \<Rightarrow> v)"
| "get_property v p = Inr JUndefined"

text \<open>Decimal rendering of an array index, as \<^verbatim>\<open>Object.entries\<close> names the keys of an array.\<close>

fun string_of_nat :: "nat \<Rightarrow> string" where
  "string_of_nat n =
     (if n < 10 then [''0123456789'' ! n]
      else string_of_nat (n div 10) @ [''0123456789'' ! (n mod 10)])"

declare string_of_nat.simps [simp del]

definition indexed :: "jsval list \<Rightarrow> (string \<times> jsval) list" where
  "indexed xs = zip (map string_of_nat [0..<length xs]) xs"

text \<open>
  \<^verbatim>\<open>Object.entries(v)\<close>: throws on \<^verbatim>\<open>undefined\<close> and \<^verbatim>\<open>null\<close>; a boolean or a number has
  no own enumerable property; a string lists its characters and an array its elements
  under their indices; an object lists its properties.
\<close>

fun Object_entries :: "jsval \<Rightarrow> error + (string \<times> jsval) list" where
  "Object_entries JUndefined = Inl TypeError"
| "Object_entries JNull = Inl TypeError"
| "Object_entries (JBool b) = Inr []"
| "Object_entries (JNum n) = Inr []"
| "Object_entries (JStr s) = Inr (indexed (map (\<lambda>c. JStr [c]) s))"
| "Object_entries (JArr xs) = Inr (indexed xs)"
| "Object_entries (JObj ps) = Inr ps"

text \<open>
  \<^verbatim>\<open>s.split(sep)\<close> for a one-character separator, reading the string from the left with
  the current segment in hand: never empty, \<^verbatim>\<open>''.split('/')\<close> is \<^verbatim>\<open>['']\<close>.
\<close>

fun split_from :: "char \<Rightarrow> string \<Rightarrow> string \<Rightarrow> string list" where
  "split_from sep segment [] = [segment]"
| "split_from sep segment (c # cs) =
     (if c = sep then segment # split_from sep [] cs
      else split_from sep (segment @ [c]) cs)"

definition split :: "char \<Rightarrow> string \<Rightarrow> string list" where
  "split sep s = split_from sep [] s"

text \<open>\<^verbatim>\<open>xs.pop()\<close>: the last element, \<^verbatim>\<open>undefined\<close> (here \<open>None\<close>) on an empty array.\<close>

definition pop :: "'a list \<Rightarrow> 'a option" where
  "pop xs = (if xs = [] then None else Some (last xs))"

section \<open>The collaborators and the state of the outside world\<close>

datatype http_method = GET | POST | PUT

text \<open>The header object built by \<^verbatim>\<open>mountHeaders\<close>: one entry, \<^verbatim>\<open>Authorization\<close>.\<close>

record Headers =
  Authorization :: string

text \<open>
  One call of the transport: \<^verbatim>\<open>request.get(url, {headers})\<close>,
  \<^verbatim>\<open>request.post(url, body, {headers})\<close> or \<^verbatim>\<open>request.put(url, body, {headers})\<close>.
  A \<^verbatim>\<open>get\<close> carries no body (\<open>JUndefined\<close>).
\<close>

record http_request =
  meth :: http_method
  url :: string
  body :: jsval
  headers :: Headers

text \<open>The fields of an \<^verbatim>\<open>AxiosResponse\<close> that the source reads.\<close>

record response =
  data :: jsval
  response_headers :: jsval

record KeycloakConfig =
  realm :: string

text \<open>
  The \<^verbatim>\<open>UserManager\<close> object. Its collaborators are deterministic oracles: \<open>token\<close> gives
  the outcome of the \<open>n\<close>-th call of \<^verbatim>\<open>token.get()\<close>, and \<open>request\<close> the settled outcome of
  the \<open>n\<close>-th call of the transport, which may depend on the request. The transport is
  declared \<^verbatim>\<open>AxiosInstance | any\<close>, so a promise may fulfil with no response at all
  (\<open>None\<close>: \<^verbatim>\<open>undefined\<close> or \<^verbatim>\<open>null\<close>), which the source guards against with \<^verbatim>\<open>response?.\<close>.
  A call of the transport returns a promise; it does not throw before returning one.
  \<^verbatim>\<open>AccessToken\<close> and \<^verbatim>\<open>KeycloakConfig\<close> are declared outside \<^verbatim>\<open>UserManager.ts\<close>; the
  source uses \<^verbatim>\<open>token.get()\<close> and \<^verbatim>\<open>config.realm\<close> of them and nothing else.
\<close>

record UserManager =
  config :: KeycloakConfig
  request :: "nat \<Rightarrow> http_request \<Rightarrow> response option settled"
  token :: "nat \<Rightarrow> error + string"

definition baseUrl :: "UserManager \<Rightarrow> string" where
  "baseUrl um = ''/auth/admin/realms/'' @ realm (config um) @ ''/users''"

text \<open>
  What an operation leaves behind: how often the token supplier was consulted, and the
  requests handed to the transport, oldest first.
\<close>

record world =
  token_calls :: nat
  sent :: "http_request list"

definition send :: "UserManager \<Rightarrow> http_request \<Rightarrow> world \<Rightarrow> response option settled \<times> world" where
  "send um r w = (request um (length (sent w)) r, w\<lparr>sent := sent w @ [r]\<rparr>)"

definition request_get :: "UserManager \<Rightarrow> string \<Rightarrow> Headers \<Rightarrow> world \<Rightarrow> response option settled \<times> world" where
  "request_get um u h w = send um \<lparr>meth = GET, url = u, body = JUndefined, headers = h\<rparr> w"

definition request_post :: "UserManager \<Rightarrow> string \<Rightarrow> jsval \<Rightarrow> Headers \<Rightarrow> world \<Rightarrow> response option settled \<times> world" where
  "request_post um u b h w = send um \<lparr>meth = POST, url = u, body = b, headers = h\<rparr> w"

definition request_put :: "UserManager \<Rightarrow> string \<Rightarrow> jsval \<Rightarrow> Headers \<Rightarrow> world \<Rightarrow> response option settled \<times> world" where
  "request_put um u b h w = send um \<lparr>meth = PUT, url = u, body = b, headers = h\<rparr> w"

section \<open>The operations of \<^verbatim>\<open>UserManager\<close>\<close>

text \<open>\<^verbatim>\<open>mountHeaders\<close> (lines 128-131): one consultation of the token supplier.\<close>

definition mountHeaders :: "UserManager \<Rightarrow> world \<Rightarrow> (error + Headers) \<times> world" where
  "mountHeaders um w =
     ((case token um (token_calls w) of
         Inl e \<Rightarrow> Inl e
       | Inr accessToken \<Rightarrow> Inr \<lparr>Authorization = ''Bearer '' @ accessToken\<rparr>),
      w\<lparr>token_calls := Suc (token_calls w)\<rparr>)"

text \<open>\<^verbatim>\<open>details\<close> (lines 19-26).\<close>

definition details :: "UserManager \<Rightarrow> string \<Rightarrow> world \<Rightarrow> (error + jsval) \<times> world" where
  "details um uid w =
     (case mountHeaders um w of
        (Inl e, w1) \<Rightarrow> (Inl e, w1)
      | (Inr h, w1) \<Rightarrow>
          (case request_get um (baseUrl um @ ''/'' @ uid) h w1 of
             (Rejected e, w2) \<Rightarrow> (Inl e, w2)
           | (Fulfilled resp, w2) \<Rightarrow>
               (Inr (case resp of None \<Rightarrow> JUndefined | Some r \<Rightarrow> data r), w2)))"

subsection \<open>Attributes\<close>

text \<open>
  \<^verbatim>\<open>Attribute\<close>: a key and its value. The declared type of the value is \<^verbatim>\<open>string[]\<close>, but
  \<^verbatim>\<open>getAttributes\<close> casts whatever the identity provider sent, so the value is any
  JavaScript value. (The field is \<^verbatim>\<open>value\<close> in the source.)
\<close>

record Attribute =
  key :: string
  val :: jsval

text \<open>
  The body of the \<^verbatim>\<open>try\<close> block of \<^verbatim>\<open>getAttributes\<close> (lines 81-93):
  \<^verbatim>\<open>Object.entries(response?.data.attributes)\<close>, each entry pushed as an attribute. The
  optional chain yields \<^verbatim>\<open>undefined\<close> when there is no response. Whatever is thrown is
  caught, and nothing has been pushed by then, so the result is the empty list.
\<close>

definition response_attributes :: "response option \<Rightarrow> error + jsval" where
  "response_attributes resp =
     (case resp of None \<Rightarrow> Inr JUndefined | Some r \<Rightarrow> get_property (data r) ''attributes'')"

definition to_attributes :: "(string \<times> jsval) list \<Rightarrow> Attribute list" where
  "to_attributes entries =
     map (\<lambda>attribute. \<lparr>key = fst attribute, val = snd attribute\<rparr>) entries"

definition parsedResponse :: "response option \<Rightarrow> Attribute list" where
  "parsedResponse resp =
     (case response_attributes resp of
        Inl e \<Rightarrow> []
      | Inr v \<Rightarrow>
          (case Object_entries v of
             Inl e \<Rightarrow> []
           | Inr entries \<Rightarrow> to_attributes entries))"

text \<open>\<^verbatim>\<open>getAttributes\<close> (lines 75-94).\<close>

definition getAttributes :: "UserManager \<Rightarrow> string \<Rightarrow> world \<Rightarrow> (error + Attribute list) \<times> world" where
  "getAttributes um uid w =
     (case mountHeaders um w of
        (Inl e, w1) \<Rightarrow> (Inl e, w1)
      | (Inr h, w1) \<Rightarrow>
          (case request_get um (baseUrl um @ ''/'' @ uid) h w1 of
             (Rejected e, w2) \<Rightarrow> (Inl e, w2)
           | (Fulfilled resp, w2) \<Rightarrow> (Inr (parsedResponse resp), w2)))"

text \<open>
  \<^verbatim>\<open>Map.prototype.set\<close> on a map kept as the list of its entries in insertion order: a key
  already present keeps its place and gets the new value, a new key goes to the end.
\<close>

fun Map_set :: "string \<Rightarrow> jsval \<Rightarrow> (string \<times> jsval) list \<Rightarrow> (string \<times> jsval) list" where
  "Map_set k v [] = [(k, v)]"
| "Map_set k v (p # ps) = (if fst p = k then (k, v) # ps else p # Map_set k v ps)"

text \<open>
  Lines 65-70: the map filled by \<^verbatim>\<open>combinedAttributes.forEach\<close>, then turned into an object
  by \<^verbatim>\<open>Object.fromEntries\<close>, which keeps one property per key of the map. The list is
  in the insertion order of the map; the object itself lists integer-like keys first,
  which changes the order of its properties and not the value any key holds.
\<close>

definition mappedAttributes :: "Attribute list \<Rightarrow> (string \<times> jsval) list" where
  "mappedAttributes combinedAttributes =
     foldl (\<lambda>m attribute. Map_set (key attribute) (val attribute) m) [] combinedAttributes"

text \<open>\<^verbatim>\<open>addAttributes\<close> (lines 58-73).\<close>

definition addAttributes :: "UserManager \<Rightarrow> string \<Rightarrow> Attribute list \<Rightarrow> world \<Rightarrow> (error + unit) \<times> world" where
  "addAttributes um uid attributes w =
     (case mountHeaders um w of
        (Inl e, w1) \<Rightarrow> (Inl e, w1)
      | (Inr h, w1) \<Rightarrow>
          (case getAttributes um uid w1 of
             (Inl e, w2) \<Rightarrow> (Inl e, w2)
           | (Inr previousAttributes, w2) \<Rightarrow>
               (let combinedAttributes = previousAttributes @ attributes;
                    body = JObj (mappedAttributes combinedAttributes)
                in (case request_put um (baseUrl um @ ''/'' @ uid)
                           (JObj [(''attributes'', body)]) h w2 of
                      (Rejected e, w3) \<Rightarrow> (Inl e, w3)
                    | (Fulfilled resp, w3) \<Rightarrow> (Inr (), w3)))))"

subsection \<open>Provisioning\<close>

text \<open>
  Modelled from the spec: the \<^verbatim>\<open>UpdateCredentialOptions\<close> interface of \<^verbatim>\<open>./interfaces\<close>,
  which is not among the sources. The spec gives it one optional boolean, \<^verbatim>\<open>temporary\<close>;
  \<open>None\<close> is the absent field.
\<close>

record UpdateCredentialOptions =
  temporary :: "bool option"

text \<open>
  \<^verbatim>\<open>savePassword\<close> (lines 133-142), as the settled outcome of the promise it returns.
  \<^verbatim>\<open>options.temporary ? true : false\<close> is true only for a present, true field.
\<close>

definition savePassword ::
  "UserManager \<Rightarrow> string \<Rightarrow> jsval \<Rightarrow> Headers \<Rightarrow> UpdateCredentialOptions \<Rightarrow> world \<Rightarrow> unit settled \<times> world" where
  "savePassword um uid credential h options w =
     (let endpoint = baseUrl um @ ''/'' @ uid @ ''/reset-password'';
          b = JObj [(''type'', JStr ''password''),
                    (''value'', credential),
                    (''temporary'', JBool (if temporary options = Some True then True else False))]
      in (case request_put um endpoint b h w of
            (Rejected e, w1) \<Rightarrow> (Rejected e, w1)
          | (Fulfilled resp, w1) \<Rightarrow> (Fulfilled (), w1)))"

text \<open>\<^verbatim>\<open>verifyEmail\<close> (lines 144-148).\<close>

definition verifyEmail :: "UserManager \<Rightarrow> string \<Rightarrow> Headers \<Rightarrow> world \<Rightarrow> unit settled \<times> world" where
  "verifyEmail um uid h w =
     (let endpoint = baseUrl um @ ''/'' @ uid @ ''/send-verify-email''
      in (case request_put um endpoint JNull h w of
            (Rejected e, w1) \<Rightarrow> (Rejected e, w1)
          | (Fulfilled resp, w1) \<Rightarrow> (Fulfilled (), w1)))"

text \<open>
  Line 51: \<^verbatim>\<open>response.headers.location.split('/').pop()\<close>. There is no optional chain
  here: a missing response, missing headers or a missing location throw, and so does a
  location that is not a string (it has no \<^verbatim>\<open>split\<close>). Were \<^verbatim>\<open>pop\<close> to yield
  \<^verbatim>\<open>undefined\<close>, the template strings of the follow-up requests would print it.
\<close>

definition userId_of :: "response option \<Rightarrow> error + string" where
  "userId_of resp =
     (case resp of
        None \<Rightarrow> Inl TypeError
      | Some r \<Rightarrow>
          (case get_property (response_headers r) ''location'' of
             Inl e \<Rightarrow> Inl e
           | Inr (JStr location) \<Rightarrow>
               Inr (case pop (split CHR ''/'' location) of None \<Rightarrow> ''undefined'' | Some s \<Rightarrow> s)
           | Inr v \<Rightarrow> Inl TypeError))"

text \<open>
  Modelled from the spec: the \<^verbatim>\<open>User\<close> interface of \<^verbatim>\<open>./interfaces\<close>, which is not among
  the sources. The spec lists \<^verbatim>\<open>id\<close>, \<^verbatim>\<open>username\<close>, \<^verbatim>\<open>email\<close>, other provider-defined
  profile fields, \<^verbatim>\<open>password\<close> and \<^verbatim>\<open>attributes\<close>; a user is therefore an object, the list
  of its own properties.
\<close>

type_synonym User = "(string \<times> jsval) list"

text \<open>Line 46: \<^verbatim>\<open>const { password, ...userData } = user\<close>.\<close>

definition user_password :: "User \<Rightarrow> jsval" where
  "user_password user = (case map_of user ''password'' of None \<Rightarrow> JUndefined | Some v \<Rightarrow> v)"

definition userData :: "User \<Rightarrow> User" where
  "userData user = filter (\<lambda>p. fst p \<noteq> ''password'') user"

text \<open>
  \<^verbatim>\<open>create\<close> (lines 45-56). The two follow-up calls each hand their request to the
  transport at once, in this order; \<^verbatim>\<open>Promise.allSettled\<close> waits for both and never
  rejects, and its result is dropped.
\<close>

definition create :: "UserManager \<Rightarrow> User \<Rightarrow> world \<Rightarrow> (error + unit) \<times> world" where
  "create um user w =
     (case mountHeaders um w of
        (Inl e, w1) \<Rightarrow> (Inl e, w1)
      | (Inr h, w1) \<Rightarrow>
          (case request_post um (baseUrl um) (JObj (userData user)) h w1 of
             (Rejected e, w2) \<Rightarrow> (Inl e, w2)
           | (Fulfilled resp, w2) \<Rightarrow>
               (case userId_of resp of
                  Inl e \<Rightarrow> (Inl e, w2)
                | Inr userId \<Rightarrow>
                    (case savePassword um userId (user_password user) h \<lparr>temporary = None\<rparr> w2 of
                       (saved, w3) \<Rightarrow>
                         (case verifyEmail um userId h w3 of
                            (verified, w4) \<Rightarrow> (Inr (), w4))))))"

subsection \<open>Roles\<close>

text \<open>
  \<^verbatim>\<open>stackUpGetClientRolesRequests\<close> (lines 107-118): one request per client id, in the
  order of the ids. A promise is kept as the outcome it settles with.
\<close>

fun stackUpGetClientRolesRequests ::
  "UserManager \<Rightarrow> string \<Rightarrow> string list \<Rightarrow> Headers \<Rightarrow> world \<Rightarrow> response option settled list \<times> world" where
  "stackUpGetClientRolesRequests um uid [] h w = ([], w)"
| "stackUpGetClientRolesRequests um uid (cid # cids) h w =
     (case request_get um
             (baseUrl um @ ''/'' @ uid @ ''/role-mappings/clients/'' @ cid @ ''/composite'') h w of
        (p, w1) \<Rightarrow>
          (case stackUpGetClientRolesRequests um uid cids h w1 of
             (ps, w2) \<Rightarrow> (p # ps, w2)))"

text \<open>Lines 29-40 of \<^verbatim>\<open>roles\<close>: the client requests, then the realm request if asked for.\<close>

definition promises ::
  "UserManager \<Rightarrow> string \<Rightarrow> string list \<Rightarrow> bool \<Rightarrow> Headers \<Rightarrow> world \<Rightarrow> response option settled list \<times> world" where
  "promises um uid clientsIds includeRealmRoles h w =
     (case stackUpGetClientRolesRequests um uid clientsIds h w of
        (ps, w1) \<Rightarrow>
          (if includeRealmRoles
           then (case request_get um (baseUrl um @ ''/'' @ uid @ ''/role-mappings/realm/composite'') h w1 of
                   (p, w2) \<Rightarrow> (ps @ [p], w2))
           else (ps, w1)))"

text \<open>
  \<^verbatim>\<open>filterFulfilledResults\<close> (lines 120-122): the value of a fulfilled outcome, else
  \<^verbatim>\<open>null\<close>. As the predicate of \<^verbatim>\<open>filter\<close> it keeps the outcomes whose result is truthy:
  a response object is, \<^verbatim>\<open>null\<close> and \<^verbatim>\<open>undefined\<close> (\<open>None\<close>) are not.
\<close>

definition filterFulfilledResults :: "response option settled \<Rightarrow> response option" where
  "filterFulfilledResults r = (case r of Fulfilled v \<Rightarrow> v | Rejected e \<Rightarrow> None)"

definition truthy :: "response option \<Rightarrow> bool" where
  "truthy v = (v \<noteq> None)"

text \<open>
  An element of the array that \<^verbatim>\<open>roles\<close> returns: a settled outcome, as line 101 returns
  them, or a projected \<^verbatim>\<open>name\<close>, as lines 102-104 produce.
\<close>

datatype roles_entry = Outcome "response option settled" | RoleName jsval

text \<open>
  Line 103, \<^verbatim>\<open>response.data.map((role) => role.name)\<close>, applied to an element of
  \<^verbatim>\<open>successes\<close>. Such an element is a settled outcome: it owns \<^verbatim>\<open>status\<close> and \<^verbatim>\<open>value\<close>
  (or \<^verbatim>\<open>reason\<close>) and no \<^verbatim>\<open>data\<close>, so \<^verbatim>\<open>response.data\<close> is \<^verbatim>\<open>undefined\<close>. Only an array
  has \<^verbatim>\<open>map\<close>.
\<close>

definition settled_data :: "response option settled \<Rightarrow> jsval" where
  "settled_data r = JUndefined"

fun names_of :: "jsval list \<Rightarrow> error + jsval list" where
  "names_of [] = Inr []"
| "names_of (role # rs) =
     (case get_property role ''name'' of
        Inl e \<Rightarrow> Inl e
      | Inr n \<Rightarrow> (case names_of rs of Inl e \<Rightarrow> Inl e | Inr ns \<Rightarrow> Inr (n # ns)))"

definition data_map_name :: "jsval \<Rightarrow> error + jsval list" where
  "data_map_name d = (case d of JArr rs \<Rightarrow> names_of rs | _ \<Rightarrow> Inl TypeError)"

text \<open>\<^verbatim>\<open>listRolesNames\<close> (lines 124-126).\<close>

definition listRolesNames :: "jsval list \<Rightarrow> jsval list \<Rightarrow> jsval list" where
  "listRolesNames list names = list @ names"

text \<open>Lines 102-104: the \<^verbatim>\<open>map\<close> stops at the first throw, then \<^verbatim>\<open>reduce\<close> from \<^verbatim>\<open>[]\<close>.\<close>

fun map_names :: "response option settled list \<Rightarrow> error + jsval list list" where
  "map_names [] = Inr []"
| "map_names (r # rs) =
     (case data_map_name (settled_data r) of
        Inl e \<Rightarrow> Inl e
      | Inr ns \<Rightarrow> (case map_names rs of Inl e \<Rightarrow> Inl e | Inr nss \<Rightarrow> Inr (ns # nss)))"

text \<open>\<^verbatim>\<open>batchAndParseRolesPromises\<close> (lines 97-105).\<close>

definition batchAndParseRolesPromises :: "response option settled list \<Rightarrow> error + roles_entry list" where
  "batchAndParseRolesPromises ps =
     (let batchResponses = ps;
          successes = filter (\<lambda>r. truthy (filterFulfilledResults r)) batchResponses
      in if length successes \<noteq> 0
         then Inr (map Outcome successes)
         else (case map_names successes of
                 Inl e \<Rightarrow> Inl e
               | Inr nss \<Rightarrow> Inr (map RoleName (foldl listRolesNames [] nss))))"

text \<open>
  \<^verbatim>\<open>roles\<close> (lines 28-43). A caller that leaves out \<^verbatim>\<open>clientsIds\<close> or
  \<^verbatim>\<open>includeRealmRoles\<close> gets the defaults \<open>[]\<close> and \<open>False\<close>.
\<close>

definition roles ::
  "UserManager \<Rightarrow> string \<Rightarrow> string list \<Rightarrow> bool \<Rightarrow> world \<Rightarrow> (error + roles_entry list) \<times> world" where
  "roles um uid clientsIds includeRealmRoles w =
     (case mountHeaders um w of
        (Inl e, w1) \<Rightarrow> (Inl e, w1)
      | (Inr h, w1) \<Rightarrow>
          (case promises um uid clientsIds includeRealmRoles h w1 of
             (ps, w2) \<Rightarrow> (batchAndParseRolesPromises ps, w2)))"

text \<open>The requests an operation hands to the transport, beyond those already sent.\<close>

definition issued :: "(world \<Rightarrow> 'a \<times> world) \<Rightarrow> world \<Rightarrow> http_request list" where
  "issued op w = drop (length (sent w)) (sent (snd (op w)))"

section \<open>Scenarios\<close>

text \<open>
  Concrete collaborators and inputs on which the operations are run below. The token
  supplier always answers \<^verbatim>\<open>t\<close>; the realm is \<^verbatim>\<open>demo\<close>; nothing has been sent yet.
\<close>

definition w0 :: world where
  "w0 = \<lparr>token_calls = 0, sent = []\<rparr>"

definition demo :: KeycloakConfig where
  "demo = \<lparr>realm = ''demo''\<rparr>"

definition always_token :: "nat \<Rightarrow> error + string" where
  "always_token n = Inr ''t''"

definition bearer_t :: Headers where
  "bearer_t = \<lparr>Authorization = ''Bearer t''\<rparr>"

definition unavailable :: error where
  "unavailable = Failure ''unavailable''"

text \<open>
  Role lookup for two clients and the realm: the first client answers \<^verbatim>\<open>read\<close>, the
  second fails, the realm answers \<^verbatim>\<open>admin\<close>. In \<open>um_down\<close> every request fails.
\<close>

definition read_response :: response where
  "read_response = \<lparr>data = JArr [JObj [(''name'', JStr ''read'')]], response_headers = JObj []\<rparr>"

definition admin_response :: response where
  "admin_response = \<lparr>data = JArr [JObj [(''name'', JStr ''admin'')]], response_headers = JObj []\<rparr>"

definition um_partial :: UserManager where
  "um_partial =
     \<lparr>config = demo,
      request = (\<lambda>n r. if n = 0 then Fulfilled (Some read_response)
                        else if n = 1 then Rejected unavailable
                        else Fulfilled (Some admin_response)),
      token = always_token\<rparr>"

definition um_down :: UserManager where
  "um_down = \<lparr>config = demo, request = (\<lambda>n r. Rejected unavailable), token = always_token\<rparr>"

text \<open>
  Provisioning: the creation request succeeds and points at user \<^verbatim>\<open>42\<close>; both follow-up
  requests fail.
\<close>

definition created_response :: response where
  "created_response =
     \<lparr>data = JUndefined,
      response_headers = JObj [(''location'', JStr ''/auth/admin/realms/demo/users/42'')]\<rparr>"

definition um_created :: UserManager where
  "um_created =
     \<lparr>config = demo,
      request = (\<lambda>n r. if n = 0 then Fulfilled (Some created_response) else Rejected unavailable),
      token = always_token\<rparr>"

definition bob :: User where
  "bob = [(''username'', JStr ''bob''), (''password'', JStr ''secret''), (''email'', JStr ''bob@example.org'')]"

definition bob_post :: http_request where
  "bob_post =
     \<lparr>meth = POST, url = ''/auth/admin/realms/demo/users'',
      body = JObj [(''username'', JStr ''bob''), (''email'', JStr ''bob@example.org'')],
      headers = bearer_t\<rparr>"

definition bob_reset :: http_request where
  "bob_reset =
     \<lparr>meth = PUT, url = ''/auth/admin/realms/demo/users/42/reset-password'',
      body = JObj [(''type'', JStr ''password''), (''value'', JStr ''secret''), (''temporary'', JBool False)],
      headers = bearer_t\<rparr>"

definition bob_verify :: http_request where
  "bob_verify =
     \<lparr>meth = PUT, url = ''/auth/admin/realms/demo/users/42/send-verify-email'',
      body = JNull, headers = bearer_t\<rparr>"

text \<open>
  Attributes: a stored record with two attributes, a record whose attributes field is an
  array, and a record without the field.
\<close>

definition stored_response :: response where
  "stored_response =
     \<lparr>data = JObj [(''id'', JStr ''u1''),
                   (''attributes'', JObj [(''team'', JArr [JStr ''blue'']), (''city'', JArr [JStr ''Oslo''])])],
      response_headers = JObj []\<rparr>"

definition um_stored :: UserManager where
  "um_stored = \<lparr>config = demo, request = (\<lambda>n r. Fulfilled (Some stored_response)), token = always_token\<rparr>"

definition stored_attributes :: "Attribute list" where
  "stored_attributes = [\<lparr>key = ''team'', val = JArr [JStr ''blue'']\<rparr>, \<lparr>key = ''city'', val = JArr [JStr ''Oslo'']\<rparr>]"

definition city_update :: "Attribute list" where
  "city_update = [\<lparr>key = ''city'', val = JArr [JStr ''Rome'']\<rparr>, \<lparr>key = ''city'', val = JArr [JStr ''Lima'']\<rparr>]"

definition stored_put :: http_request where
  "stored_put =
     \<lparr>meth = PUT, url = ''/auth/admin/realms/demo/users/u1'',
      body = JObj [(''attributes'',
                    JObj [(''team'', JArr [JStr ''blue'']), (''city'', JArr [JStr ''Lima''])])],
      headers = bearer_t\<rparr>"

definition array_response :: response where
  "array_response =
     \<lparr>data = JObj [(''id'', JStr ''u1''), (''attributes'', JArr [JStr ''x''])],
      response_headers = JObj []\<rparr>"

definition um_array :: UserManager where
  "um_array = \<lparr>config = demo, request = (\<lambda>n r. Fulfilled (Some array_response)), token = always_token\<rparr>"

definition bare_response :: response where
  "bare_response = \<lparr>data = JObj [(''id'', JStr ''u1'')], response_headers = JObj []\<rparr>"

definition um_bare :: UserManager where
  "um_bare = \<lparr>config = demo, request = (\<lambda>n r. Fulfilled (Some bare_response)), token = always_token\<rparr>"

text \<open>
  A token supplier whose first answer differs from its later ones, to tell which
  consultation a header comes from.
\<close>

definition um_rotating :: UserManager where
  "um_rotating =
     \<lparr>config = demo,
      request = (\<lambda>n r. Fulfilled (Some stored_response)),
      token = (\<lambda>n. if n = 0 then Inr ''first'' else Inr ''second'')\<rparr>"

text \<open>
  The spec's notion of a well-formed attributes field, a mapping from keys to lists of
  strings; and the values of the field that have no own enumerable property at all.
\<close>

definition key_to_value_list_mapping :: "jsval \<Rightarrow> bool" where
  "key_to_value_list_mapping v =
     (case v of
        JObj ps \<Rightarrow> list_all (\<lambda>p. case snd p of JArr xs \<Rightarrow> list_all (\<lambda>x. case x of JStr s \<Rightarrow> True | _ \<Rightarrow> False) xs | _ \<Rightarrow> False) ps
      | _ \<Rightarrow> False)"

definition absent_or_primitive :: "jsval \<Rightarrow> bool" where
  "absent_or_primitive v =
     (case v of JUndefined \<Rightarrow> True | JNull \<Rightarrow> True | JBool b \<Rightarrow> True | JNum n \<Rightarrow> True | _ \<Rightarrow> False)"

section \<open>The attribute map\<close>

text \<open>
  The map built by \<^verbatim>\<open>addAttributes\<close> is determined by its keys, in order, and its lookup
  function; each key holds the value of its last occurrence in the combined list.
\<close>

lemma map_of_Map_set: "map_of (Map_set k v m) = (map_of m)(k \<mapsto> v)"
  by (induction m) (auto simp: fun_eq_iff)

lemma keys_Map_set: "map fst (Map_set k v m) = (if k \<in> fst ` set m then map fst m else map fst m @ [k])"
  by (induction m) auto

lemma distinct_Map_set: "distinct (map fst m) \<Longrightarrow> distinct (map fst (Map_set k v m))"
  by (simp add: keys_Map_set)

lemma foldl_lookup:
  "map_of (foldl (\<lambda>m a. Map_set (key a) (val a) m) m0 as) k =
     (if k \<in> key ` set as then Some (val (last (filter (\<lambda>a. key a = k) as))) else map_of m0 k)"
proof (induction as arbitrary: m0)
  case Nil
  then show ?case by simp
next
  case (Cons a as)
  show ?case
  proof (cases "k \<in> key ` set as")
    case True
    then have "filter (\<lambda>a. key a = k) as \<noteq> []"
      by (auto simp: filter_empty_conv)
    with True show ?thesis
      by (simp add: Cons.IH)
  next
    case False
    then have e: "filter (\<lambda>a. key a = k) as = []"
      by (auto simp: filter_empty_conv)
    show ?thesis
    proof (cases "key a = k")
      case True
      with False e show ?thesis
        by (simp add: Cons.IH map_of_Map_set)
    next
      case ne: False
      with False e show ?thesis
        by (simp add: Cons.IH map_of_Map_set)
    qed
  qed
qed

lemma mappedAttributes_lookup:
  "map_of (mappedAttributes as) k =
     (if k \<in> key ` set as then Some (val (last (filter (\<lambda>a. key a = k) as))) else None)"
  by (simp add: mappedAttributes_def foldl_lookup)

lemma foldl_keys_distinct:
  "distinct (map fst m0) \<Longrightarrow> distinct (map fst (foldl (\<lambda>m a. Map_set (key a) (val a) m) m0 as))"
  by (induction as arbitrary: m0) (simp_all add: distinct_Map_set)

lemma foldl_keys_absorbed:
  "key ` set as \<subseteq> fst ` set m0 \<Longrightarrow> map fst (foldl (\<lambda>m a. Map_set (key a) (val a) m) m0 as) = map fst m0"
proof (induction as arbitrary: m0)
  case Nil
  then show ?case by simp
next
  case (Cons a as)
  have k: "map fst (Map_set (key a) (val a) m0) = map fst m0"
    using Cons.prems by (simp add: keys_Map_set)
  then have "fst ` set (Map_set (key a) (val a) m0) = fst ` set m0"
    by (metis set_map)
  with Cons.prems have "key ` set as \<subseteq> fst ` set (Map_set (key a) (val a) m0)"
    by simp
  from Cons.IH[OF this] k show ?case by simp
qed

lemma entries_eqI:
  "distinct (map fst xs) \<Longrightarrow> map fst xs = map fst ys \<Longrightarrow> map_of xs = map_of ys \<Longrightarrow> xs = ys"
proof (induction xs arbitrary: ys)
  case Nil
  then show ?case by simp
next
  case (Cons x xs)
  then obtain y ys' where ys: "ys = y # ys'" by (cases ys) auto
  obtain k v where x: "x = (k, v)" by (cases x)
  obtain k' v' where y: "y = (k', v')" by (cases y)
  from Cons.prems(2) ys x y have kk: "k' = k" and keys: "map fst xs = map fst ys'" by auto
  have "map_of (x # xs) k = map_of ys k" by (rule fun_cong[OF Cons.prems(3)])
  with ys x y kk have vv: "v' = v" by simp
  have "map_of xs = map_of ys'"
  proof
    fix j
    show "map_of xs j = map_of ys' j"
    proof (cases "j = k")
      case True
      from Cons.prems(1) x have "k \<notin> fst ` set xs" by auto
      moreover from this keys have "k \<notin> fst ` set ys'" by (metis set_map)
      ultimately show ?thesis using True by (metis map_of_eq_None_iff)
    next
      case False
      have "map_of (x # xs) j = map_of ys j" by (rule fun_cong[OF Cons.prems(3)])
      with False ys x y kk show ?thesis by simp
    qed
  qed
  with Cons.IH[of ys'] Cons.prems(1) keys have "xs = ys'" by simp
  with ys x y kk vv show ?case by simp
qed

lemma key_to_attributes: "key ` set (to_attributes m) = fst ` set m"
  by (simp add: to_attributes_def image_image)

lemma foldl_keys:
  "fst ` set (foldl (\<lambda>m a. Map_set (key a) (val a) m) m0 as) = fst ` set m0 \<union> key ` set as"
proof (induction as arbitrary: m0)
  case Nil
  then show ?case by simp
next
  case (Cons a as)
  have "fst ` set (Map_set (key a) (val a) m0) = insert (key a) (fst ` set m0)"
    using keys_Map_set[of "key a" "val a" m0] by (metis (no_types, lifting) Un_insert_right insert_absorb list.set(2) set_append set_map sup_bot.right_neutral list.set(1))
  then show ?case by (simp add: Cons.IH)
qed

lemma mappedAttributes_keys: "fst ` set (mappedAttributes as) = key ` set as"
  by (simp add: mappedAttributes_def foldl_keys)

lemma mappedAttributes_distinct: "distinct (map fst (mappedAttributes as))"
  by (simp add: mappedAttributes_def foldl_keys_distinct)

lemma mappedAttributes_append:
  "mappedAttributes (xs @ ys) = foldl (\<lambda>m a. Map_set (key a) (val a) m) (mappedAttributes xs) ys"
  by (simp add: mappedAttributes_def)

lemma filter_key_to_attributes:
  "distinct (map fst m) \<Longrightarrow> (k, v) \<in> set m \<Longrightarrow> filter (\<lambda>a. key a = k) (to_attributes m) = [\<lparr>key = k, val = v\<rparr>]"
proof (induction m)
  case Nil
  then show ?case by simp
next
  case (Cons p m)
  show ?case
  proof (cases "p = (k, v)")
    case True
    with Cons.prems(1) have "k \<notin> fst ` set m" by auto
    then have "filter (\<lambda>a. key a = k) (to_attributes m) = []"
      by (auto simp: filter_empty_conv to_attributes_def)
    with True show ?thesis by (simp add: to_attributes_def)
  next
    case False
    with Cons.prems have m: "(k, v) \<in> set m" and d: "distinct (map fst m)" by auto
    from m Cons.prems(1) have "fst p \<noteq> k" by (auto simp: image_iff)
    with Cons.IH[OF d m] show ?thesis by (simp add: to_attributes_def)
  qed
qed

lemma mappedAttributes_to_attributes:
  assumes d: "distinct (map fst m)"
  shows "mappedAttributes (to_attributes m) = m"
proof (rule entries_eqI)
  show "distinct (map fst (mappedAttributes (to_attributes m)))"
    by (rule mappedAttributes_distinct)
  show "map_of (mappedAttributes (to_attributes m)) = map_of m"
  proof
    fix k
    show "map_of (mappedAttributes (to_attributes m)) k = map_of m k"
    proof (cases "k \<in> fst ` set m")
      case True
      then obtain v where kv: "(k, v) \<in> set m" by auto
      with d have "map_of m k = Some v" by simp
      with True kv d show ?thesis
        by (simp add: mappedAttributes_lookup key_to_attributes filter_key_to_attributes)
    next
      case False
      then have "map_of m k = None" by (simp add: map_of_eq_None_iff)
      with False show ?thesis
        by (simp add: mappedAttributes_lookup key_to_attributes)
    qed
  qed
  show "map fst (mappedAttributes (to_attributes m)) = map fst m"
    unfolding mappedAttributes_def to_attributes_def using d
  proof (induction m rule: rev_induct)
    case Nil
    then show ?case by simp
  next
    case (snoc p m)
    then have d': "distinct (map fst m)" and n: "fst p \<notin> fst ` set m" by auto
    have "fst ` set (foldl (\<lambda>m a. Map_set (key a) (val a) m) [] (map (\<lambda>attribute. \<lparr>key = fst attribute, val = snd attribute\<rparr>) m)) = fst ` set m"
      using foldl_keys[of "[]" "to_attributes m"] key_to_attributes[of m] by (simp add: to_attributes_def)
    with n snoc.IH[OF d'] show ?case
      by (simp add: keys_Map_set)
  qed
qed

lemma merge_idempotent:
  "mappedAttributes (to_attributes (mappedAttributes (existing @ incoming)) @ incoming) = mappedAttributes (existing @ incoming)"
proof -
  let ?M = "mappedAttributes (existing @ incoming)"
  let ?R = "foldl (\<lambda>m a. Map_set (key a) (val a) m) ?M incoming"
  have d: "distinct (map fst ?M)" by (rule mappedAttributes_distinct)
  have R: "mappedAttributes (to_attributes ?M @ incoming) = ?R"
    by (simp only: mappedAttributes_append[of "to_attributes ?M"] mappedAttributes_to_attributes[OF d])
  have sub: "key ` set incoming \<subseteq> fst ` set ?M"
    by (auto simp: mappedAttributes_keys)
  have "?R = ?M"
  proof (rule entries_eqI)
    show "distinct (map fst ?R)" by (rule foldl_keys_distinct[OF d])
    show "map fst ?R = map fst ?M" by (rule foldl_keys_absorbed[OF sub])
    show "map_of ?R = map_of ?M"
    proof
      fix k
      show "map_of ?R k = map_of ?M k"
      proof (cases "k \<in> key ` set incoming")
        case True
        then have "filter (\<lambda>a. key a = k) incoming \<noteq> []"
          by (auto simp: filter_empty_conv)
        with True show ?thesis
          by (auto simp: foldl_lookup mappedAttributes_lookup)
      next
        case False
        then show ?thesis by (simp add: foldl_lookup)
      qed
    qed
  qed
  with R show ?thesis by simp
qed

lemma incoming_wins:
  assumes "k \<in> key ` set attributes"
  shows "map_of (mappedAttributes (previousAttributes @ attributes)) k =
           Some (val (last (filter (\<lambda>a. key a = k) attributes)))"
proof -
  from assms have "filter (\<lambda>a. key a = k) attributes \<noteq> []"
    by (auto simp: filter_empty_conv)
  with assms show ?thesis by (auto simp: mappedAttributes_lookup)
qed

lemma untouched_kept:
  assumes "k \<in> key ` set previousAttributes" and "k \<notin> key ` set attributes"
  shows "map_of (mappedAttributes (previousAttributes @ attributes)) k =
           Some (val (last (filter (\<lambda>a. key a = k) previousAttributes)))"
proof -
  from assms(2) have "filter (\<lambda>a. key a = k) attributes = []"
    by (auto simp: filter_empty_conv)
  with assms show ?thesis by (auto simp: mappedAttributes_lookup)
qed

section \<open>What the operations consult and send\<close>

lemmas transport_defs = request_get_def request_post_def request_put_def send_def

lemma snd_mountHeaders: "snd (mountHeaders um w) = w\<lparr>token_calls := Suc (token_calls w)\<rparr>"
  by (simp add: mountHeaders_def)

lemma stackUp_token_calls:
  "token_calls (snd (stackUpGetClientRolesRequests um uid cids h w)) = token_calls w"
  by (induction cids arbitrary: w) (simp_all add: case_prod_beta transport_defs)

lemma stackUp_length:
  "length (fst (stackUpGetClientRolesRequests um uid cids h w)) = length cids"
  by (induction cids arbitrary: w) (simp_all add: case_prod_beta transport_defs)

lemma promises_token_calls:
  "token_calls (snd (promises um uid cids realm_too h w)) = token_calls w"
  by (simp add: promises_def case_prod_beta transport_defs stackUp_token_calls)

lemma promises_length:
  "length (fst (promises um uid cids realm_too h w)) = length cids + (if realm_too then 1 else 0)"
  by (simp add: promises_def case_prod_beta transport_defs stackUp_length)

lemma details_token_calls: "token_calls (snd (details um uid w)) = Suc (token_calls w)"
  by (simp add: details_def mountHeaders_def transport_defs split: sum.splits settled.splits)

lemma getAttributes_token_calls: "token_calls (snd (getAttributes um uid w)) = Suc (token_calls w)"
  by (simp add: getAttributes_def mountHeaders_def transport_defs split: sum.splits settled.splits)

lemma roles_token_calls: "token_calls (snd (roles um uid cids realm_too w)) = Suc (token_calls w)"
  by (simp add: roles_def mountHeaders_def case_prod_beta promises_token_calls split: sum.splits)

lemma create_token_calls: "token_calls (snd (create um user w)) = Suc (token_calls w)"
  by (simp add: create_def mountHeaders_def transport_defs case_prod_beta Let_def
        savePassword_def verifyEmail_def split: sum.splits settled.splits)

lemma addAttributes_token_calls:
  "token_calls (snd (addAttributes um uid attributes w)) =
     (case token um (token_calls w) of
        Inl e \<Rightarrow> Suc (token_calls w)
      | Inr accessToken \<Rightarrow> Suc (Suc (token_calls w)))"
  by (simp add: addAttributes_def getAttributes_token_calls mountHeaders_def transport_defs case_prod_beta
        Let_def split: sum.splits settled.splits)

subsection \<open>Provisioning\<close>

lemmas create_defs = create_def mountHeaders_def transport_defs case_prod_beta Let_def
  savePassword_def verifyEmail_def issued_def

lemma suffix_last: "suffix xs ys \<Longrightarrow> xs \<noteq> [] \<Longrightarrow> last ys = last xs"
  by (auto simp: suffix_def)

lemma baseUrl_not_reset: "\<not> suffix ''/reset-password'' (baseUrl um)"
proof
  assume "suffix ''/reset-password'' (baseUrl um)"
  then have "last (baseUrl um) = last ''/reset-password''"
    by (rule suffix_last) simp
  then show False by (simp add: baseUrl_def)
qed

lemma verify_not_reset: "\<not> suffix ''/reset-password'' (x @ ''/send-verify-email'')"
proof
  assume "suffix ''/reset-password'' (x @ ''/send-verify-email'')"
  then have "last (x @ ''/send-verify-email'') = last ''/reset-password''"
    by (rule suffix_last) simp
  then show False by simp
qed

lemma create_sent:
  "sent (snd (create um user w)) = sent w @
     (case token um (token_calls w) of
        Inl e \<Rightarrow> []
      | Inr accessToken \<Rightarrow>
          (let h = \<lparr>Authorization = ''Bearer '' @ accessToken\<rparr>;
               post = \<lparr>meth = POST, url = baseUrl um, body = JObj (userData user), headers = h\<rparr>
           in post #
              (case request um (length (sent w)) post of
                 Rejected e \<Rightarrow> []
               | Fulfilled resp \<Rightarrow>
                   (case userId_of resp of
                      Inl e \<Rightarrow> []
                    | Inr userId \<Rightarrow>
                        [\<lparr>meth = PUT, url = baseUrl um @ ''/'' @ userId @ ''/reset-password'',
                          body = JObj [(''type'', JStr ''password''), (''value'', user_password user),
                                       (''temporary'', JBool False)],
                          headers = h\<rparr>,
                         \<lparr>meth = PUT, url = baseUrl um @ ''/'' @ userId @ ''/send-verify-email'',
                          body = JNull, headers = h\<rparr>]))))"
  by (simp add: create_defs split: sum.splits settled.splits)

lemma create_result:
  assumes "token um (token_calls w) = Inr accessToken"
    and "request um (length (sent w))
           \<lparr>meth = POST, url = baseUrl um, body = JObj (userData user),
            headers = \<lparr>Authorization = ''Bearer '' @ accessToken\<rparr>\<rparr> = Fulfilled resp"
    and "userId_of resp = Inr userId"
  shows "fst (create um user w) = Inr ()"
  using assms by (simp add: create_defs split: sum.splits settled.splits)

lemma create_issued_cases:
  assumes "r \<in> set (issued (create um user) w)"
  shows "(\<exists>h. r = \<lparr>meth = POST, url = baseUrl um, body = JObj (userData user), headers = h\<rparr>)
       \<or> (\<exists>h userId. r = \<lparr>meth = PUT, url = baseUrl um @ ''/'' @ userId @ ''/reset-password'',
                          body = JObj [(''type'', JStr ''password''), (''value'', user_password user),
                                       (''temporary'', JBool False)],
                          headers = h\<rparr>)
       \<or> (\<exists>h userId. r = \<lparr>meth = PUT, url = (baseUrl um @ ''/'' @ userId) @ ''/send-verify-email'',
                          body = JNull, headers = h\<rparr>)"
  using assms unfolding issued_def create_sent
  by (auto simp: Let_def split: sum.splits settled.splits)

lemma create_post_body:
  assumes "r \<in> set (issued (create um user) w)" and "meth r = POST"
  shows "body r = JObj (userData user)"
  using create_issued_cases[OF assms(1)] assms(2) by auto

lemma create_reset_body:
  assumes "r \<in> set (issued (create um user) w)" and "suffix ''/reset-password'' (url r)"
  shows "body r = JObj [(''type'', JStr ''password''), (''value'', user_password user),
                         (''temporary'', JBool False)]"
  using create_issued_cases[OF assms(1)]
proof (elim disjE exE)
  fix h
  assume "r = \<lparr>meth = POST, url = baseUrl um, body = JObj (userData user), headers = h\<rparr>"
  with assms(2) baseUrl_not_reset[of um] show ?thesis by simp
next
  fix h userId
  assume "r = \<lparr>meth = PUT, url = baseUrl um @ ''/'' @ userId @ ''/reset-password'',
                          body = JObj [(''type'', JStr ''password''), (''value'', user_password user),
                                       (''temporary'', JBool False)],
                          headers = h\<rparr>"
  then show ?thesis by simp
next
  fix h userId
  assume "r = \<lparr>meth = PUT, url = (baseUrl um @ ''/'' @ userId) @ ''/send-verify-email'',
                          body = JNull, headers = h\<rparr>"
  then have "url r = (baseUrl um @ ''/'' @ userId) @ ''/send-verify-email''" by (simp del: append_assoc)
  with assms(2) verify_not_reset[of "baseUrl um @ ''/'' @ userId"] show ?thesis by (simp del: append_assoc)
qed

lemma userId_created: "userId_of (Some created_response) = Inr ''42''"
  by (simp add: userId_of_def created_response_def pop_def split_def)

lemma created_token: "token um_created (token_calls w0) = Inr ''t''"
  by (simp add: um_created_def always_token_def)

lemma created_post:
  "request um_created (length (sent w0))
     \<lparr>meth = POST, url = baseUrl um_created, body = JObj (userData bob),
      headers = \<lparr>Authorization = ''Bearer '' @ ''t''\<rparr>\<rparr> = Fulfilled (Some created_response)"
  by (simp add: um_created_def w0_def)

lemma created_issued: "issued (create um_created bob) w0 = [bob_post, bob_reset, bob_verify]"
proof -
  have "sent (snd (create um_created bob w0)) = sent w0 @ [bob_post, bob_reset, bob_verify]"
    unfolding create_sent created_token sum.case Let_def created_post settled.case userId_created
    by (simp add: bob_post_def bob_reset_def bob_verify_def bearer_t_def baseUrl_def um_created_def
          demo_def userData_def user_password_def bob_def)
  then show ?thesis by (simp add: issued_def)
qed

subsection \<open>Attributes\<close>

lemma getAttributes_fetched:
  assumes "token um (token_calls w) = Inr accessToken"
    and "request um (length (sent w))
           \<lparr>meth = GET, url = baseUrl um @ ''/'' @ uid, body = JUndefined,
            headers = \<lparr>Authorization = ''Bearer '' @ accessToken\<rparr>\<rparr> = Fulfilled resp"
  shows "fst (getAttributes um uid w) = Inr (parsedResponse resp)"
  using assms by (simp add: getAttributes_def mountHeaders_def transport_defs)

lemma parsedResponse_empty:
  assumes "(\<exists>e. response_attributes resp = Inl e) \<or>
           (\<exists>v. response_attributes resp = Inr v \<and> absent_or_primitive v)"
  shows "parsedResponse resp = []"
proof -
  have "absent_or_primitive v \<Longrightarrow> (case Object_entries v of Inl e \<Rightarrow> [] | Inr x \<Rightarrow> to_attributes x) = []" for v
    by (cases v) (simp_all add: absent_or_primitive_def to_attributes_def)
  with assms show ?thesis
    by (auto simp: parsedResponse_def)
qed

lemma parsedResponse_entries:
  assumes "response_attributes resp = Inr v" and "Object_entries v = Inr es"
  shows "parsedResponse resp = to_attributes es"
  using assms by (simp add: parsedResponse_def)

lemma getAttributes_sent:
  "sent (snd (getAttributes um uid w)) = sent w @
     (case token um (token_calls w) of
        Inl e \<Rightarrow> []
      | Inr accessToken \<Rightarrow>
          [\<lparr>meth = GET, url = baseUrl um @ ''/'' @ uid, body = JUndefined,
            headers = \<lparr>Authorization = ''Bearer '' @ accessToken\<rparr>\<rparr>])"
  by (simp add: getAttributes_def mountHeaders_def transport_defs split: sum.splits settled.splits)

lemma addAttributes_issued_cases:
  assumes "r \<in> set (issued (addAttributes um uid attributes) w)"
  shows "meth r = GET \<or>
         (\<exists>h previousAttributes.
            fst (getAttributes um uid (snd (mountHeaders um w))) = Inr previousAttributes \<and>
            r = \<lparr>meth = PUT, url = baseUrl um @ ''/'' @ uid,
                 body = JObj [(''attributes'', JObj (mappedAttributes (previousAttributes @ attributes)))],
                 headers = h\<rparr>)"
  using assms
  by (auto simp: issued_def addAttributes_def getAttributes_sent mountHeaders_def request_put_def send_def
        case_prod_beta Let_def split: sum.splits settled.splits)

lemma addAttributes_put_body:
  assumes "r \<in> set (issued (addAttributes um uid attributes) w)" and "meth r = PUT"
    and "fst (getAttributes um uid (snd (mountHeaders um w))) = Inr previousAttributes"
  shows "body r = JObj [(''attributes'', JObj (mappedAttributes (previousAttributes @ attributes)))]"
  using addAttributes_issued_cases[OF assms(1)] assms(2,3) by auto

lemma stored_previous:
  "fst (getAttributes um_stored ''u1'' (snd (mountHeaders um_stored w0))) = Inr stored_attributes"
  by (simp add: getAttributes_def mountHeaders_def transport_defs um_stored_def always_token_def
        parsedResponse_def response_attributes_def stored_response_def to_attributes_def
        stored_attributes_def)

lemma stored_merge:
  "mappedAttributes (stored_attributes @ city_update) =
     [(''team'', JArr [JStr ''blue'']), (''city'', JArr [JStr ''Lima''])]"
  by (simp add: mappedAttributes_def stored_attributes_def city_update_def)

lemma stored_issued: "stored_put \<in> set (issued (addAttributes um_stored ''u1'' city_update) w0)"
  by (simp add: issued_def addAttributes_def getAttributes_def mountHeaders_def transport_defs
        um_stored_def always_token_def w0_def Let_def stored_put_def bearer_t_def baseUrl_def demo_def
        parsedResponse_def response_attributes_def stored_response_def to_attributes_def
        mappedAttributes_def city_update_def)

subsection \<open>Roles\<close>

lemma batch_no_success:
  assumes "\<forall>p\<in>set ps. \<exists>e. p = Rejected e"
  shows "batchAndParseRolesPromises ps = Inr []"
proof -
  from assms have "filter (\<lambda>r. truthy (filterFulfilledResults r)) ps = []"
    by (auto simp: filter_empty_conv truthy_def filterFulfilledResults_def)
  then show ?thesis by (simp add: batchAndParseRolesPromises_def)
qed

lemma batch_some_success:
  assumes "filter (\<lambda>r. truthy (filterFulfilledResults r)) ps \<noteq> []"
  shows "batchAndParseRolesPromises ps = Inr (map Outcome (filter (\<lambda>r. truthy (filterFulfilledResults r)) ps))"
  using assms by (simp add: batchAndParseRolesPromises_def)

lemma roles_result:
  assumes "token um (token_calls w) = Inr accessToken"
  shows "fst (roles um uid clientsIds includeRealmRoles w) =
           batchAndParseRolesPromises
             (fst (promises um uid clientsIds includeRealmRoles
                     \<lparr>Authorization = ''Bearer '' @ accessToken\<rparr>
                     (w\<lparr>token_calls := Suc (token_calls w)\<rparr>)))"
  using assms by (simp add: roles_def mountHeaders_def case_prod_beta)

subsection \<open>Headers of the requests sent\<close>

lemma stackUp_sent:
  "\<exists>rs. sent (snd (stackUpGetClientRolesRequests um uid cids h w)) = sent w @ rs \<and>
        (\<forall>r\<in>set rs. headers r = h)"
proof (induction cids arbitrary: w)
  case Nil
  then show ?case by simp
next
  case (Cons cid cids)
  let ?r = "\<lparr>meth = GET, url = baseUrl um @ ''/'' @ uid @ ''/role-mappings/clients/'' @ cid @ ''/composite'',
              body = JUndefined, headers = h\<rparr>"
  let ?w1 = "w\<lparr>sent := sent w @ [?r]\<rparr>"
  from Cons.IH[of ?w1] obtain rs where
    rs: "sent (snd (stackUpGetClientRolesRequests um uid cids h ?w1)) = sent ?w1 @ rs"
      "\<forall>r\<in>set rs. headers r = h"
    by blast
  have "sent (snd (stackUpGetClientRolesRequests um uid (cid # cids) h w)) = sent w @ (?r # rs)"
    using rs(1) by (simp add: case_prod_beta transport_defs)
  moreover have "\<forall>r\<in>set (?r # rs). headers r = h"
    using rs(2) by simp
  ultimately show ?case by blast
qed

lemma promises_sent:
  "\<exists>rs. sent (snd (promises um uid cids realm_too h w)) = sent w @ rs \<and>
        (\<forall>r\<in>set rs. headers r = h)"
proof -
  from stackUp_sent[of um uid cids h w] obtain rs where
    rs: "sent (snd (stackUpGetClientRolesRequests um uid cids h w)) = sent w @ rs"
      "\<forall>r\<in>set rs. headers r = h"
    by blast
  show ?thesis
  proof (cases realm_too)
    case True
    let ?r = "\<lparr>meth = GET, url = baseUrl um @ ''/'' @ uid @ ''/role-mappings/realm/composite'',
                body = JUndefined, headers = h\<rparr>"
    have "sent (snd (promises um uid cids realm_too h w)) = sent w @ (rs @ [?r])"
      using True rs(1) by (simp add: promises_def case_prod_beta transport_defs)
    moreover have "\<forall>r\<in>set (rs @ [?r]). headers r = h"
      using rs(2) by simp
    ultimately show ?thesis by blast
  next
    case False
    then have "sent (snd (promises um uid cids realm_too h w)) = sent w @ rs"
      using rs(1) by (simp add: promises_def case_prod_beta)
    with rs(2) show ?thesis by blast
  qed
qed

lemma details_headers:
  assumes "r \<in> set (issued (details um uid) w)"
  shows "\<exists>t. token um (token_calls w) = Inr t \<and> headers r = \<lparr>Authorization = ''Bearer '' @ t\<rparr>"
  using assms
  by (auto simp: issued_def details_def mountHeaders_def transport_defs split: sum.splits settled.splits)

lemma getAttributes_headers:
  assumes "r \<in> set (issued (getAttributes um uid) w)"
  shows "\<exists>t. token um (token_calls w) = Inr t \<and> headers r = \<lparr>Authorization = ''Bearer '' @ t\<rparr>"
  using assms unfolding issued_def getAttributes_sent
  by (auto split: sum.splits)

lemma create_headers:
  assumes "r \<in> set (issued (create um user) w)"
  shows "\<exists>t. token um (token_calls w) = Inr t \<and> headers r = \<lparr>Authorization = ''Bearer '' @ t\<rparr>"
  using assms unfolding issued_def create_sent
  by (auto simp: Let_def split: sum.splits settled.splits)

lemma roles_headers:
  assumes "r \<in> set (issued (roles um uid cids realm_too) w)"
  shows "\<exists>t. token um (token_calls w) = Inr t \<and> headers r = \<lparr>Authorization = ''Bearer '' @ t\<rparr>"
proof (cases "token um (token_calls w)")
  case (Inl e)
  then have "issued (roles um uid cids realm_too) w = []"
    by (simp add: issued_def roles_def mountHeaders_def)
  with assms show ?thesis by simp
next
  case (Inr t)
  let ?h = "\<lparr>Authorization = ''Bearer '' @ t\<rparr>"
  let ?w1 = "w\<lparr>token_calls := Suc (token_calls w)\<rparr>"
  from promises_sent[of um uid cids realm_too ?h ?w1] obtain rs where
    rs: "sent (snd (promises um uid cids realm_too ?h ?w1)) = sent ?w1 @ rs"
      "\<forall>r\<in>set rs. headers r = ?h"
    by blast
  have "issued (roles um uid cids realm_too) w = rs"
    using Inr rs(1) by (simp add: issued_def roles_def mountHeaders_def case_prod_beta)
  with assms rs(2) Inr show ?thesis by simp
qed

lemma addAttributes_headers:
  assumes "r \<in> set (issued (addAttributes um uid attributes) w)"
  shows "(meth r = GET \<and> (\<exists>t. token um (Suc (token_calls w)) = Inr t \<and>
                               headers r = \<lparr>Authorization = ''Bearer '' @ t\<rparr>)) \<or>
         (meth r = PUT \<and> (\<exists>t. token um (token_calls w) = Inr t \<and>
                               headers r = \<lparr>Authorization = ''Bearer '' @ t\<rparr>))"
  using assms
  by (auto simp: issued_def addAttributes_def getAttributes_sent mountHeaders_def request_put_def send_def
        case_prod_beta Let_def split: sum.splits settled.splits)

lemma rotating_details_first:
  "issued (details um_rotating ''u1'') w0 =
     [\<lparr>meth = GET, url = ''/auth/admin/realms/demo/users/u1'', body = JUndefined,
       headers = \<lparr>Authorization = ''Bearer first''\<rparr>\<rparr>]"
  by (simp add: issued_def details_def mountHeaders_def transport_defs um_rotating_def w0_def
        baseUrl_def demo_def)

lemma rotating_details_second:
  "issued (details um_rotating ''u1'') (snd (details um_rotating ''u1'' w0)) =
     [\<lparr>meth = GET, url = ''/auth/admin/realms/demo/users/u1'', body = JUndefined,
       headers = \<lparr>Authorization = ''Bearer second''\<rparr>\<rparr>]"
  by (simp add: issued_def details_def mountHeaders_def transport_defs um_rotating_def w0_def
        baseUrl_def demo_def)

lemma rotating_addAttributes:
  "map (\<lambda>r. (meth r, headers r)) (issued (addAttributes um_rotating ''u1'' city_update) w0) =
     [(GET, \<lparr>Authorization = ''Bearer second''\<rparr>), (PUT, \<lparr>Authorization = ''Bearer first''\<rparr>)]"
  by (simp add: issued_def addAttributes_def getAttributes_def mountHeaders_def transport_defs
        um_rotating_def w0_def Let_def)

section \<open>Role resolution\<close>

text \<open>
  C1. Claim: when at least one scope request of \<^verbatim>\<open>roles\<close> succeeds, the result is the
  concatenation of the \<^verbatim>\<open>name\<close> fields of the successful response bodies. The code
  returns the successful settled outcomes themselves (line 101): the projection of names
  sits in the other arm of the conditional, which runs only when nothing succeeded. For
  the clients \<^verbatim>\<open>clientA\<close> (answers \<^verbatim>\<open>read\<close>) and \<^verbatim>\<open>clientB\<close> (fails) and the realm
  (answers \<^verbatim>\<open>admin\<close>), the result is the two fulfilled outcomes, not the two names.
\<close>

theorem roles_partial_success_example:
  "fst (roles um_partial ''u1'' [''clientA'', ''clientB''] True w0) =
     Inr [Outcome (Fulfilled (Some read_response)), Outcome (Fulfilled (Some admin_response))] \<and>
   fst (roles um_partial ''u1'' [''clientA'', ''clientB''] True w0) \<noteq>
     Inr [RoleName (JStr ''read''), RoleName (JStr ''admin'')]"
  by (simp add: roles_def promises_def mountHeaders_def transport_defs batchAndParseRolesPromises_def
        truthy_def filterFulfilledResults_def um_partial_def always_token_def w0_def)

text \<open>
  C2. Claim: when every scope request fails, \<^verbatim>\<open>roles\<close> returns the failure outcomes, one
  per requested scope. The code keeps no failure: with the token obtained and every
  issued request rejected, the result is the empty list, although one request per client
  id, and one more for the realm if asked for, was issued.
\<close>

theorem roles_all_failed_empty:
  assumes "token um (token_calls w) = Inr accessToken"
    and "\<forall>p \<in> set (fst (promises um uid clientsIds includeRealmRoles
                     \<lparr>Authorization = ''Bearer '' @ accessToken\<rparr> (snd (mountHeaders um w)))).
           \<exists>e. p = Rejected e"
  shows "fst (roles um uid clientsIds includeRealmRoles w) = Inr [] \<and>
         length (fst (promises um uid clientsIds includeRealmRoles
                     \<lparr>Authorization = ''Bearer '' @ accessToken\<rparr> (snd (mountHeaders um w))))
           = length clientsIds + (if includeRealmRoles then 1 else 0)"
  using roles_result[OF assms(1)] batch_no_success[OF assms(2)] promises_length
  by (simp add: snd_mountHeaders)

theorem roles_all_failed_empty_witness:
  "token um_down (token_calls w0) = Inr ''t'' \<and>
   fst (promises um_down ''u1'' [''clientA'', ''clientB''] True bearer_t (snd (mountHeaders um_down w0)))
     = [Rejected unavailable, Rejected unavailable, Rejected unavailable] \<and>
   fst (roles um_down ''u1'' [''clientA'', ''clientB''] True w0) = Inr []"
proof -
  have t: "token um_down (token_calls w0) = Inr ''t''"
    by (simp add: um_down_def always_token_def)
  have p: "fst (promises um_down ''u1'' [''clientA'', ''clientB''] True \<lparr>Authorization = ''Bearer '' @ ''t''\<rparr>
                 (snd (mountHeaders um_down w0)))
             = [Rejected unavailable, Rejected unavailable, Rejected unavailable]"
    by (simp add: promises_def transport_defs um_down_def)
  then have "\<forall>p \<in> set (fst (promises um_down ''u1'' [''clientA'', ''clientB''] True
                     \<lparr>Authorization = ''Bearer '' @ ''t''\<rparr> (snd (mountHeaders um_down w0)))).
               \<exists>e. p = Rejected e"
    by simp
  from roles_all_failed_empty[OF t this] t p show ?thesis
    by (simp add: bearer_t_def)
qed

text \<open>
  The claim as stated fails when both clients and the realm are down: three requests
  fail, and the result is the empty list rather than the three failure outcomes.
\<close>

theorem roles_all_failed_counterexample:
  "fst (roles um_down ''u1'' [''clientA'', ''clientB''] True w0) = Inr [] \<and>
   fst (roles um_down ''u1'' [''clientA'', ''clientB''] True w0) \<noteq>
     Inr [Outcome (Rejected unavailable), Outcome (Rejected unavailable), Outcome (Rejected unavailable)]"
  by (simp add: roles_def promises_def mountHeaders_def transport_defs batchAndParseRolesPromises_def
        truthy_def filterFulfilledResults_def um_down_def always_token_def w0_def)

section \<open>Provisioning\<close>

text \<open>
  C3. Once the token is obtained, the creation request is fulfilled and the user id is
  read from its \<^verbatim>\<open>Location\<close> header, \<^verbatim>\<open>create\<close> completes without error, whatever the
  transport does with the reset-password and the verification-email requests.
\<close>

theorem create_tolerates_follow_up_failures:
  assumes "token um (token_calls w) = Inr accessToken"
    and "request um (length (sent w))
           \<lparr>meth = POST, url = baseUrl um, body = JObj (userData user),
            headers = \<lparr>Authorization = ''Bearer '' @ accessToken\<rparr>\<rparr> = Fulfilled resp"
    and "userId_of resp = Inr userId"
  shows "fst (create um user w) = Inr ()"
  using assms by (rule create_result)

text \<open>Both follow-up requests fail in this run, and \<^verbatim>\<open>create\<close> still completes.\<close>

theorem create_tolerates_follow_up_failures_witness:
  "userId_of (Some created_response) = Inr ''42'' \<and>
   request um_created 1 = (\<lambda>r. Rejected unavailable) \<and>
   request um_created 2 = (\<lambda>r. Rejected unavailable) \<and>
   fst (create um_created bob w0) = Inr ()"
  using create_tolerates_follow_up_failures[OF created_token created_post userId_created]
  by (simp add: userId_created um_created_def)

text \<open>
  C8. Every \<^verbatim>\<open>POST\<close> that \<^verbatim>\<open>create\<close> issues carries the user's fields without the
  \<^verbatim>\<open>password\<close> field: no property of the body is named \<^verbatim>\<open>password\<close>, and every other
  property of the user is in it.
\<close>

theorem create_post_omits_password:
  assumes "r \<in> set (issued (create um user) w)" and "meth r = POST"
  shows "body r = JObj (userData user) \<and>
         ''password'' \<notin> fst ` set (userData user) \<and>
         set (userData user) = {p \<in> set user. fst p \<noteq> ''password''}"
  using create_post_body[OF assms] by (auto simp: userData_def)

theorem create_post_omits_password_witness:
  "bob_post \<in> set (issued (create um_created bob) w0) \<and>
   meth bob_post = POST \<and>
   body bob_post = JObj [(''username'', JStr ''bob''), (''email'', JStr ''bob@example.org'')] \<and>
   body bob_post = JObj (userData bob) \<and>
   ''password'' \<notin> fst ` set (userData bob)"
proof -
  have m: "bob_post \<in> set (issued (create um_created bob) w0)"
    by (simp add: created_issued)
  have p: "meth bob_post = POST" by (simp add: bob_post_def)
  have b: "body bob_post = JObj [(''username'', JStr ''bob''), (''email'', JStr ''bob@example.org'')]"
    by (simp add: bob_post_def)
  from create_post_omits_password[OF m p] m p b show ?thesis
    by blast
qed

text \<open>
  C10. Every reset-password request that \<^verbatim>\<open>create\<close> issues has the body
  \<^verbatim>\<open>{type: "password", value: <the user's password>, temporary: false}\<close>: \<^verbatim>\<open>create\<close>
  passes no options to \<^verbatim>\<open>savePassword\<close>.
\<close>

theorem create_password_never_temporary:
  assumes "r \<in> set (issued (create um user) w)" and "suffix ''/reset-password'' (url r)"
  shows "body r = JObj [(''type'', JStr ''password''), (''value'', user_password user),
                         (''temporary'', JBool False)]"
  using assms by (rule create_reset_body)

theorem create_password_never_temporary_witness:
  "bob_reset \<in> set (issued (create um_created bob) w0) \<and>
   suffix ''/reset-password'' (url bob_reset) \<and>
   body bob_reset = JObj [(''type'', JStr ''password''), (''value'', user_password bob),
                          (''temporary'', JBool False)]"
proof -
  have m: "bob_reset \<in> set (issued (create um_created bob) w0)"
    by (simp add: created_issued)
  have "url bob_reset = ''/auth/admin/realms/demo/users/42'' @ ''/reset-password''"
    by (simp add: bob_reset_def)
  then have s: "suffix ''/reset-password'' (url bob_reset)"
    by (metis suffixI)
  from create_password_never_temporary[OF m s] m s show ?thesis
    by simp
qed

section \<open>Attributes\<close>

text \<open>
  C4. In the \<^verbatim>\<open>PUT\<close> that \<^verbatim>\<open>addAttributes\<close> issues, the body is the object built from
  the attributes read before followed by the incoming ones, and a key that occurs in
  both holds exactly the value of its last occurrence in the incoming list.
\<close>

theorem addAttributes_incoming_value_wins:
  assumes "r \<in> set (issued (addAttributes um uid attributes) w)" and "meth r = PUT"
    and "fst (getAttributes um uid (snd (mountHeaders um w))) = Inr previousAttributes"
    and "k \<in> key ` set previousAttributes" and "k \<in> key ` set attributes"
  shows "body r = JObj [(''attributes'', JObj (mappedAttributes (previousAttributes @ attributes)))] \<and>
         map_of (mappedAttributes (previousAttributes @ attributes)) k =
           Some (val (last (filter (\<lambda>a. key a = k) attributes)))"
  using addAttributes_put_body[OF assms(1,2,3)] incoming_wins[OF assms(5)] by simp

theorem addAttributes_incoming_value_wins_witness:
  "stored_put \<in> set (issued (addAttributes um_stored ''u1'' city_update) w0) \<and>
   ''city'' \<in> key ` set stored_attributes \<and> ''city'' \<in> key ` set city_update \<and>
   body stored_put = JObj [(''attributes'', JObj (mappedAttributes (stored_attributes @ city_update)))] \<and>
   map_of (mappedAttributes (stored_attributes @ city_update)) ''city'' = Some (JArr [JStr ''Lima''])"
proof -
  have p: "meth stored_put = PUT" by (simp add: stored_put_def)
  have a: "''city'' \<in> key ` set stored_attributes" by (simp add: stored_attributes_def)
  have b: "''city'' \<in> key ` set city_update" by (simp add: city_update_def)
  have l: "val (last (filter (\<lambda>a. key a = ''city'') city_update)) = JArr [JStr ''Lima'']"
    by (simp add: city_update_def)
  from addAttributes_incoming_value_wins[OF stored_issued p stored_previous a b] stored_issued a b l
  show ?thesis by simp
qed

text \<open>
  C5. In the \<^verbatim>\<open>PUT\<close> that \<^verbatim>\<open>addAttributes\<close> issues, a key that occurs in the attributes
  read before and not in the incoming ones is present in the body with the value it had
  (that of its last occurrence, the only one when the stored object is well formed).
\<close>

theorem addAttributes_keeps_other_keys:
  assumes "r \<in> set (issued (addAttributes um uid attributes) w)" and "meth r = PUT"
    and "fst (getAttributes um uid (snd (mountHeaders um w))) = Inr previousAttributes"
    and "k \<in> key ` set previousAttributes" and "k \<notin> key ` set attributes"
  shows "body r = JObj [(''attributes'', JObj (mappedAttributes (previousAttributes @ attributes)))] \<and>
         map_of (mappedAttributes (previousAttributes @ attributes)) k =
           Some (val (last (filter (\<lambda>a. key a = k) previousAttributes)))"
  using addAttributes_put_body[OF assms(1,2,3)] untouched_kept[OF assms(4,5)] by simp

theorem addAttributes_keeps_other_keys_witness:
  "stored_put \<in> set (issued (addAttributes um_stored ''u1'' city_update) w0) \<and>
   ''team'' \<in> key ` set stored_attributes \<and> ''team'' \<notin> key ` set city_update \<and>
   body stored_put = JObj [(''attributes'', JObj (mappedAttributes (stored_attributes @ city_update)))] \<and>
   map_of (mappedAttributes (stored_attributes @ city_update)) ''team'' = Some (JArr [JStr ''blue''])"
proof -
  have p: "meth stored_put = PUT" by (simp add: stored_put_def)
  have a: "''team'' \<in> key ` set stored_attributes" by (simp add: stored_attributes_def)
  have b: "''team'' \<notin> key ` set city_update" by (simp add: city_update_def)
  have l: "val (last (filter (\<lambda>a. key a = ''team'') stored_attributes)) = JArr [JStr ''blue'']"
    by (simp add: stored_attributes_def)
  from addAttributes_keeps_other_keys[OF stored_issued p stored_previous a b] stored_issued a b l
  show ?thesis by simp
qed

text \<open>
  C7. Merging the incoming attributes into the entries of the already merged map gives
  the same map again: the same keys in the same order with the same values.
\<close>

theorem merge_idempotent_in_incoming:
  "mappedAttributes (to_attributes (mappedAttributes (existing @ incoming)) @ incoming) =
     mappedAttributes (existing @ incoming)"
  by (rule merge_idempotent)

theorem merge_idempotent_in_incoming_witness:
  "mappedAttributes (to_attributes (mappedAttributes (stored_attributes @ city_update)) @ city_update) =
     [(''team'', JArr [JStr ''blue'']), (''city'', JArr [JStr ''Lima''])]"
  using merge_idempotent_in_incoming[of stored_attributes city_update] by (simp add: stored_merge)

text \<open>
  C6. Claim: \<^verbatim>\<open>getAttributes\<close> returns the empty list whenever the attributes field is
  absent, null or not a mapping from keys to lists. What holds: once the record is
  fetched, \<^verbatim>\<open>getAttributes\<close> never raises; it returns the empty list when reading the
  field throws (no data) or the field is absent, null, a boolean or a number; and any
  other value is returned property by property, one attribute per entry that
  \<^verbatim>\<open>Object.entries\<close> lists: the properties of an object, the elements of an array and
  the characters of a string under their indices, whether or not the value is a mapping
  to lists.
\<close>

theorem getAttributes_lenient_read:
  assumes "token um (token_calls w) = Inr accessToken"
    and "request um (length (sent w))
           \<lparr>meth = GET, url = baseUrl um @ ''/'' @ uid, body = JUndefined,
            headers = \<lparr>Authorization = ''Bearer '' @ accessToken\<rparr>\<rparr> = Fulfilled resp"
  shows "(\<exists>as. fst (getAttributes um uid w) = Inr as) \<and>
         ((\<exists>e. response_attributes resp = Inl e) \<or>
          (\<exists>v. response_attributes resp = Inr v \<and> absent_or_primitive v)
            \<longrightarrow> fst (getAttributes um uid w) = Inr []) \<and>
         (\<forall>v es. response_attributes resp = Inr v \<and> Object_entries v = Inr es
            \<longrightarrow> fst (getAttributes um uid w) = Inr (to_attributes es)) \<and>
         (\<forall>ps. response_attributes resp = Inr (JObj ps)
            \<longrightarrow> fst (getAttributes um uid w) = Inr (map (\<lambda>p. \<lparr>key = fst p, val = snd p\<rparr>) ps)) \<and>
         (\<forall>xs. response_attributes resp = Inr (JArr xs)
            \<longrightarrow> fst (getAttributes um uid w) =
                  Inr (map (\<lambda>p. \<lparr>key = fst p, val = snd p\<rparr>)
                         (zip (map string_of_nat [0..<length xs]) xs))) \<and>
         (\<forall>s. response_attributes resp = Inr (JStr s)
            \<longrightarrow> fst (getAttributes um uid w) =
                  Inr (map (\<lambda>p. \<lparr>key = fst p, val = snd p\<rparr>)
                         (zip (map string_of_nat [0..<length s]) (map (\<lambda>c. JStr [c]) s))))"
proof -
  have r: "fst (getAttributes um uid w) = Inr (parsedResponse resp)"
    by (rule getAttributes_fetched[OF assms])
  have a: "\<exists>as. fst (getAttributes um uid w) = Inr as"
    using r by blast
  have b: "(\<exists>e. response_attributes resp = Inl e) \<or>
          (\<exists>v. response_attributes resp = Inr v \<and> absent_or_primitive v)
            \<longrightarrow> fst (getAttributes um uid w) = Inr []"
    using r parsedResponse_empty[of resp] by simp
  have c: "\<forall>v es. response_attributes resp = Inr v \<and> Object_entries v = Inr es
            \<longrightarrow> fst (getAttributes um uid w) = Inr (to_attributes es)"
    using r parsedResponse_entries[of resp] by simp
  have d: "\<forall>ps. response_attributes resp = Inr (JObj ps)
            \<longrightarrow> fst (getAttributes um uid w) = Inr (map (\<lambda>p. \<lparr>key = fst p, val = snd p\<rparr>) ps)"
    using r by (auto simp: parsedResponse_def to_attributes_def)
  have e: "\<forall>xs. response_attributes resp = Inr (JArr xs)
            \<longrightarrow> fst (getAttributes um uid w) =
                  Inr (map (\<lambda>p. \<lparr>key = fst p, val = snd p\<rparr>)
                         (zip (map string_of_nat [0..<length xs]) xs))"
    using r by (auto simp: parsedResponse_def to_attributes_def indexed_def)
  have f: "\<forall>s. response_attributes resp = Inr (JStr s)
            \<longrightarrow> fst (getAttributes um uid w) =
                  Inr (map (\<lambda>p. \<lparr>key = fst p, val = snd p\<rparr>)
                         (zip (map string_of_nat [0..<length s]) (map (\<lambda>c. JStr [c]) s)))"
    using r by (auto simp: parsedResponse_def to_attributes_def indexed_def)
  from a b c d e f show ?thesis by blast
qed

theorem getAttributes_lenient_read_witness:
  "response_attributes (Some bare_response) = Inr JUndefined \<and>
   absent_or_primitive JUndefined \<and>
   fst (getAttributes um_bare ''u1'' w0) = Inr [] \<and>
   response_attributes (Some stored_response) =
     Inr (JObj [(''team'', JArr [JStr ''blue'']), (''city'', JArr [JStr ''Oslo''])]) \<and>
   fst (getAttributes um_stored ''u1'' w0) =
     Inr [\<lparr>key = ''team'', val = JArr [JStr ''blue'']\<rparr>, \<lparr>key = ''city'', val = JArr [JStr ''Oslo'']\<rparr>]"
proof -
  have t: "token um_bare (token_calls w0) = Inr ''t''"
    by (simp add: um_bare_def always_token_def)
  have g: "request um_bare (length (sent w0))
           \<lparr>meth = GET, url = baseUrl um_bare @ ''/'' @ ''u1'', body = JUndefined,
            headers = \<lparr>Authorization = ''Bearer '' @ ''t''\<rparr>\<rparr> = Fulfilled (Some bare_response)"
    by (simp add: um_bare_def)
  have a: "response_attributes (Some bare_response) = Inr JUndefined"
    by (simp add: response_attributes_def bare_response_def)
  have b: "absent_or_primitive JUndefined"
    by (simp add: absent_or_primitive_def)
  have t': "token um_stored (token_calls w0) = Inr ''t''"
    by (simp add: um_stored_def always_token_def)
  have g': "request um_stored (length (sent w0))
           \<lparr>meth = GET, url = baseUrl um_stored @ ''/'' @ ''u1'', body = JUndefined,
            headers = \<lparr>Authorization = ''Bearer '' @ ''t''\<rparr>\<rparr> = Fulfilled (Some stored_response)"
    by (simp add: um_stored_def)
  have a': "response_attributes (Some stored_response) =
     Inr (JObj [(''team'', JArr [JStr ''blue'']), (''city'', JArr [JStr ''Oslo''])])"
    by (simp add: response_attributes_def stored_response_def)
  from getAttributes_lenient_read[OF t g] a b
  have 1: "fst (getAttributes um_bare ''u1'' w0) = Inr []" by blast
  from getAttributes_lenient_read[OF t' g'] a'
  have 2: "fst (getAttributes um_stored ''u1'' w0) =
     Inr [\<lparr>key = ''team'', val = JArr [JStr ''blue'']\<rparr>, \<lparr>key = ''city'', val = JArr [JStr ''Oslo'']\<rparr>]"
    by (simp add: to_attributes_def)
  from a b 1 a' 2 show ?thesis by blast
qed

text \<open>
  An attributes field that is an array is no mapping from keys to lists, and the result
  is not empty: the array's element comes back under the key \<^verbatim>\<open>0\<close>.
\<close>

theorem getAttributes_array_counterexample:
  "\<not> key_to_value_list_mapping (JArr [JStr ''x'']) \<and>
   response_attributes (Some array_response) = Inr (JArr [JStr ''x'']) \<and>
   fst (getAttributes um_array ''u1'' w0) = Inr [\<lparr>key = ''0'', val = JStr ''x''\<rparr>] \<and>
   fst (getAttributes um_array ''u1'' w0) \<noteq> Inr []"
  by (simp add: key_to_value_list_mapping_def getAttributes_def mountHeaders_def transport_defs
        um_array_def always_token_def parsedResponse_def response_attributes_def array_response_def
        to_attributes_def indexed_def string_of_nat.simps[of 0])

section \<open>The token supplier\<close>

text \<open>
  C9. Claim: every public operation consults the token supplier exactly once. What
  holds: \<^verbatim>\<open>details\<close>, \<^verbatim>\<open>roles\<close>, \<^verbatim>\<open>create\<close> and \<^verbatim>\<open>getAttributes\<close> consult it once;
  \<^verbatim>\<open>addAttributes\<close> consults it once itself and, when that call succeeds, once more
  through \<^verbatim>\<open>getAttributes\<close>, twice in all. No operation keeps a header for a later one:
  every request an operation sends carries the token of a consultation made in that
  very invocation, the first one, except that the \<^verbatim>\<open>GET\<close> of \<^verbatim>\<open>addAttributes\<close> carries
  the token of the second, made by the nested \<^verbatim>\<open>getAttributes\<close>.
\<close>

theorem token_supplier_consultations:
  "token_calls (snd (details um uid w)) = Suc (token_calls w) \<and>
   token_calls (snd (roles um uid clientsIds includeRealmRoles w)) = Suc (token_calls w) \<and>
   token_calls (snd (create um user w)) = Suc (token_calls w) \<and>
   token_calls (snd (getAttributes um uid w)) = Suc (token_calls w) \<and>
   token_calls (snd (addAttributes um uid attributes w)) =
     (case token um (token_calls w) of
        Inl e \<Rightarrow> Suc (token_calls w)
      | Inr accessToken \<Rightarrow> Suc (Suc (token_calls w))) \<and>
   (\<forall>r \<in> set (issued (details um uid) w).
      \<exists>t. token um (token_calls w) = Inr t \<and> headers r = \<lparr>Authorization = ''Bearer '' @ t\<rparr>) \<and>
   (\<forall>r \<in> set (issued (roles um uid clientsIds includeRealmRoles) w).
      \<exists>t. token um (token_calls w) = Inr t \<and> headers r = \<lparr>Authorization = ''Bearer '' @ t\<rparr>) \<and>
   (\<forall>r \<in> set (issued (create um user) w).
      \<exists>t. token um (token_calls w) = Inr t \<and> headers r = \<lparr>Authorization = ''Bearer '' @ t\<rparr>) \<and>
   (\<forall>r \<in> set (issued (getAttributes um uid) w).
      \<exists>t. token um (token_calls w) = Inr t \<and> headers r = \<lparr>Authorization = ''Bearer '' @ t\<rparr>) \<and>
   (\<forall>r \<in> set (issued (addAttributes um uid attributes) w).
      (meth r = GET \<and> (\<exists>t. token um (Suc (token_calls w)) = Inr t \<and>
                            headers r = \<lparr>Authorization = ''Bearer '' @ t\<rparr>)) \<or>
      (meth r = PUT \<and> (\<exists>t. token um (token_calls w) = Inr t \<and>
                            headers r = \<lparr>Authorization = ''Bearer '' @ t\<rparr>)))"
proof -
  have counts:
    "token_calls (snd (details um uid w)) = Suc (token_calls w)"
    "token_calls (snd (roles um uid clientsIds includeRealmRoles w)) = Suc (token_calls w)"
    "token_calls (snd (create um user w)) = Suc (token_calls w)"
    "token_calls (snd (getAttributes um uid w)) = Suc (token_calls w)"
    "token_calls (snd (addAttributes um uid attributes w)) =
       (case token um (token_calls w) of
          Inl e \<Rightarrow> Suc (token_calls w)
        | Inr accessToken \<Rightarrow> Suc (Suc (token_calls w)))"
    by (rule details_token_calls roles_token_calls create_token_calls getAttributes_token_calls
          addAttributes_token_calls)+
  have fresh:
    "\<forall>r \<in> set (issued (details um uid) w).
      \<exists>t. token um (token_calls w) = Inr t \<and> headers r = \<lparr>Authorization = ''Bearer '' @ t\<rparr>"
    "\<forall>r \<in> set (issued (roles um uid clientsIds includeRealmRoles) w).
      \<exists>t. token um (token_calls w) = Inr t \<and> headers r = \<lparr>Authorization = ''Bearer '' @ t\<rparr>"
    "\<forall>r \<in> set (issued (create um user) w).
      \<exists>t. token um (token_calls w) = Inr t \<and> headers r = \<lparr>Authorization = ''Bearer '' @ t\<rparr>"
    "\<forall>r \<in> set (issued (getAttributes um uid) w).
      \<exists>t. token um (token_calls w) = Inr t \<and> headers r = \<lparr>Authorization = ''Bearer '' @ t\<rparr>"
    using details_headers roles_headers create_headers getAttributes_headers by blast+
  have nested:
    "\<forall>r \<in> set (issued (addAttributes um uid attributes) w).
      (meth r = GET \<and> (\<exists>t. token um (Suc (token_calls w)) = Inr t \<and>
                            headers r = \<lparr>Authorization = ''Bearer '' @ t\<rparr>)) \<or>
      (meth r = PUT \<and> (\<exists>t. token um (token_calls w) = Inr t \<and>
                            headers r = \<lparr>Authorization = ''Bearer '' @ t\<rparr>))"
    using addAttributes_headers by blast
  from counts fresh nested show ?thesis by (intro conjI)
qed

text \<open>
  With a supplier that answers \<^verbatim>\<open>first\<close> and then \<^verbatim>\<open>second\<close>, two calls of \<^verbatim>\<open>details\<close>
  in a row send the first and then the second token.
\<close>

theorem token_supplier_consultations_witness:
  "token_calls (snd (details um_rotating ''u1'' w0)) = 1 \<and>
   token_calls (snd (roles um_rotating ''u1'' [''clientA'', ''clientB''] True w0)) = 1 \<and>
   token_calls (snd (create um_rotating bob w0)) = 1 \<and>
   token_calls (snd (getAttributes um_rotating ''u1'' w0)) = 1 \<and>
   token_calls (snd (addAttributes um_rotating ''u1'' city_update w0)) = 2 \<and>
   map headers (issued (details um_rotating ''u1'') w0) = [\<lparr>Authorization = ''Bearer first''\<rparr>] \<and>
   map headers (issued (details um_rotating ''u1'') (snd (details um_rotating ''u1'' w0))) =
     [\<lparr>Authorization = ''Bearer second''\<rparr>] \<and>
   map (\<lambda>r. (meth r, headers r)) (issued (addAttributes um_rotating ''u1'' city_update) w0) =
     [(GET, \<lparr>Authorization = ''Bearer second''\<rparr>), (PUT, \<lparr>Authorization = ''Bearer first''\<rparr>)]"
proof -
  note th = token_supplier_consultations[of um_rotating "''u1''" w0 "[''clientA'', ''clientB'']" True bob city_update]
  have t: "token um_rotating (token_calls w0) = Inr ''first''"
    by (simp add: um_rotating_def w0_def)
  have z: "token_calls w0 = 0" by (simp add: w0_def)
  from th t z have c:
    "token_calls (snd (details um_rotating ''u1'' w0)) = 1"
    "token_calls (snd (roles um_rotating ''u1'' [''clientA'', ''clientB''] True w0)) = 1"
    "token_calls (snd (create um_rotating bob w0)) = 1"
    "token_calls (snd (getAttributes um_rotating ''u1'' w0)) = 1"
    "token_calls (snd (addAttributes um_rotating ''u1'' city_update w0)) = 2"
    by simp_all
  from c rotating_addAttributes show ?thesis
    by (simp add: rotating_details_first rotating_details_second)
qed

text \<open>One call of \<^verbatim>\<open>addAttributes\<close> on a fresh world consults the token supplier twice.\<close>

theorem addAttributes_two_consultations_counterexample:
  "token_calls w0 = 0 \<and> token_calls (snd (addAttributes um_stored ''u1'' city_update w0)) = 2"
  by (simp add: addAttributes_def getAttributes_def mountHeaders_def transport_defs
        um_stored_def always_token_def w0_def Let_def)

end
